theory Spec2Isabelle
  imports Main
begin

section \<open>pubsub-to-pubsub: the relay command and its logger\<close>

text \<open>
  The program is one cobra command (\<open>cmd.RootCmd\<close>) and one helper
  (\<open>util.SetLogger\<close>). Everything it talks to (logrus, the credential parser,
  the Pub/Sub client) is a library outside the repository. The model keeps the
  calls the program makes on those libraries as events of a trace, in program
  order, and takes what the libraries answer as parameters.
\<close>

subsection \<open>Data\<close>

text \<open>A Go \<open>error\<close> value is identified by its message; \<open>nil\<close> is \<open>None\<close>.\<close>

type_synonym error = string

text \<open>\<open>type Config struct\<close>: eight string fields.\<close>

record Config =
  LogFormat :: string
  LogLevel :: string
  FromGoogleCloudProject :: string
  ToGoogleCloudProject :: string
  FromGoogleApplicationCredentials :: string
  ToGoogleApplicationCredentials :: string
  PubSubSubscription :: string
  PubSubDestinationTopic :: string

text \<open>The \<open>const\<close> block of the command.\<close>

definition paramConfig :: string where
  "paramConfig = ''config''"

definition paramLogFormat :: string where
  "paramLogFormat = ''log-format''"

definition paramLogLevel :: string where
  "paramLogLevel = ''log-level''"

definition paramFromGoogleCloudProject :: string where
  "paramFromGoogleCloudProject = ''from-google-cloud-project''"

definition paramToGoogleCloudProject :: string where
  "paramToGoogleCloudProject = ''to-google-cloud-project''"

definition paramFromGoogleApplicationCredentials :: string where
  "paramFromGoogleApplicationCredentials = ''from-google-application-credentials-json''"

definition paramToGoogleApplicationCredentials :: string where
  "paramToGoogleApplicationCredentials = ''to-google-application-credentials-json''"

definition paramPubSubSubscription :: string where
  "paramPubSubSubscription = ''pubsub-subscription''"

definition paramPubSubDestinationTopic :: string where
  "paramPubSubDestinationTopic = ''pubsub-destination-topic''"

definition defaultLogLevel :: string where
  "defaultLogLevel = ''debug''"

definition defaultLogFormat :: string where
  "defaultLogFormat = ''json''"

definition pubSubMaxOutstandingMessages :: int where
  "pubSubMaxOutstandingMessages = 10"

text \<open>The seven logrus levels, and the two formatters \<open>SetLogger\<close> builds.\<close>

datatype Level =
  PanicLevel | FatalLevel | ErrorLevel | WarnLevel | InfoLevel | DebugLevel | TraceLevel

datatype Formatter =
    JSONFormatter (FieldMap: "(string \<times> string) list")
  | TextFormatter (QuoteEmptyFields: bool) (FullTimestamp: bool)
      (ForceColors: bool) (DisableLevelTruncation: bool)

text \<open>A received Pub/Sub message: identifier, payload bytes, attributes.\<close>

record Message =
  ID :: string
  Data :: string
  Attributes :: "(string \<times> string) list"

datatype Credentials = CredentialsOf string

datatype Client = ClientOf string

text \<open>
  What the process does that can be observed from outside. A \<open>Log\<close> event is a
  call on the logrus logger at a level, with its fields and its message; whether
  the sink prints it depends on the level that is set. \<open>Publish\<close>, \<open>Ack\<close> and
  \<open>Nack\<close> carry the index of the delivery they belong to.
\<close>

datatype event =
    Log Level "(string \<times> string) list" string
  | Stderr string
  | CredentialsFromJSONCall string
  | NewClientCall string "Credentials option"
  | Subscription string
  | SetMaxOutstandingMessages int
  | Topic string
  | ReceiveCall
  | Publish nat Message
  | Ack nat
  | Nack nat

text \<open>
  The global state of the process: the formatter and level of the logrus
  standard logger, and the trace so far.
\<close>

record process =
  formatter :: Formatter
  level :: Level
  trace :: "event list"

text \<open>The logrus standard logger starts with a text formatter at level info.\<close>

definition process_start :: process where
  "process_start =
     \<lparr>formatter = TextFormatter False False False False, level = InfoLevel, trace = []\<rparr>"

definition emit :: "event \<Rightarrow> process \<Rightarrow> process" where
  "emit ev p = p\<lparr>trace := trace p @ [ev]\<rparr>"

subsection \<open>\<open>util.SetLogger\<close>\<close>

text \<open>
  \<open>logrus.ParseLevel\<close> is the parameter \<open>parse\<close>: \<open>Inl e\<close> is the error it
  returns for a name that is no level, \<open>Inr l\<close> the level it parsed.
  \<open>logrus.FieldKeyLevel\<close> is \<open>level\<close> and \<open>logrus.FieldKeyMsg\<close> is \<open>msg\<close>.
\<close>

definition SetLogger ::
  "(string \<Rightarrow> error + Level) \<Rightarrow> string \<Rightarrow> string \<Rightarrow> process \<Rightarrow> process" where
  "SetLogger parse ll lf p =
     (let p1 = (if lf = ''json''
                then p\<lparr>formatter := JSONFormatter [(''level'', ''severity''), (''msg'', ''message'')]\<rparr>
                else p\<lparr>formatter := TextFormatter True True True True\<rparr>)
      in case parse ll of
           Inl e \<Rightarrow>
             (emit (Log ErrorLevel []
                (''log level is not ok, setting to info by default : '' @ e)) p1)\<lparr>level := InfoLevel\<rparr>
         | Inr logLevel \<Rightarrow> p1\<lparr>level := logLevel\<rparr>)"

text \<open>
  \<open>logrus.ParseLevel\<close> itself, to evaluate \<open>SetLogger\<close> with: it lower-cases the
  name (\<open>strings.ToLower\<close>), compares it with the level names, and otherwise
  returns an error that quotes the name as given (\<open>%q\<close>). The model is the
  library's on names of printable ASCII: \<open>to_lower\<close> maps the letters A to Z, and
  \<open>quote\<close> escapes the double quote and the backslash. The theorems on
  \<open>SetLogger\<close> hold for every parser.
\<close>

definition to_lower :: "char \<Rightarrow> char" where
  "to_lower c =
     (case map_of (zip ''ABCDEFGHIJKLMNOPQRSTUVWXYZ'' ''abcdefghijklmnopqrstuvwxyz'') c of
        Some l \<Rightarrow> l
      | None \<Rightarrow> c)"

definition quote :: "string \<Rightarrow> string" where
  "quote s =
     [CHR 0x22] @
     concat (map (\<lambda>c. if c = CHR 0x22 \<or> c = CHR 0x5C then [CHR 0x5C, c] else [c]) s) @
     [CHR 0x22]"

definition logrus_ParseLevel :: "string \<Rightarrow> error + Level" where
  "logrus_ParseLevel lvl =
     (let s = map to_lower lvl
      in if s = ''panic'' then Inr PanicLevel
         else if s = ''fatal'' then Inr FatalLevel
         else if s = ''error'' then Inr ErrorLevel
         else if s = ''warn'' \<or> s = ''warning'' then Inr WarnLevel
         else if s = ''info'' then Inr InfoLevel
         else if s = ''debug'' then Inr DebugLevel
         else if s = ''trace'' then Inr TraceLevel
         else Inl (''not a valid logrus Level: '' @ quote lvl))"

subsection \<open>The receive handler\<close>

text \<open>
  The callback given to \<open>sub.Receive\<close>:
  \<^verbatim>\<open>
  func(ctx context.Context, msg *pubsub.Message) {
      if _, err = topic.Publish(ctx, msg).Get(ctx); err == nil {
          msg.Ack()
      } else {
          logrus.Errorf("err when inserting data: %v", err)
          msg.Nack()
      }
  }
  \<close>
  The assignment is \<open>=\<close>, not \<open>:=\<close>: \<open>err\<close> is the variable of the enclosing
  \<open>Run\<close> function, captured by the closure, so every invocation of the callback
  writes and reads the same variable. The client library invokes the callback
  from several goroutines at once (up to the outstanding-message bound), so
  other invocations can come between the accesses of one invocation to \<open>err\<close>.
  There are three: the publish, whose result is stored in \<open>err\<close>; the test of
  \<open>err\<close> in the condition; and, in the else branch, the second read of \<open>err\<close>,
  as the argument of \<open>Errorf\<close>. Each is one step; the \<open>Ack\<close>, and the \<open>Errorf\<close>
  with the \<open>Nack\<close>, touch nothing shared and go with the read before them.

  A delivery is a message with the result of publishing it (\<open>None\<close> for
  success). Each delivery has a program counter; a schedule is the order in
  which deliveries take their steps.
\<close>

datatype pc = AtPublish | AtTest | AtLog | Returned

record relay =
  shared_err :: "error option"
  pcs :: "pc list"
  out :: "event list"

text \<open>The verb \<open>%v\<close> on an error value: its message, or \<open><nil>\<close> for nil.\<close>

definition format_err :: "error option \<Rightarrow> string" where
  "format_err err = (case err of None \<Rightarrow> ''<nil>'' | Some e \<Rightarrow> e)"

definition handler_step :: "(Message \<times> error option) list \<Rightarrow> nat \<Rightarrow> relay \<Rightarrow> relay" where
  "handler_step ds i s =
     (if i < length ds then
        (case pcs s ! i of
           AtPublish \<Rightarrow>
             s\<lparr>shared_err := snd (ds ! i), pcs := (pcs s)[i := AtTest],
               out := out s @ [Publish i (fst (ds ! i))]\<rparr>
         | AtTest \<Rightarrow>
             (case shared_err s of
                None \<Rightarrow> s\<lparr>pcs := (pcs s)[i := Returned], out := out s @ [Ack i]\<rparr>
              | Some _ \<Rightarrow> s\<lparr>pcs := (pcs s)[i := AtLog]\<rparr>)
         | AtLog \<Rightarrow>
             s\<lparr>pcs := (pcs s)[i := Returned],
               out := out s @
                 [Log ErrorLevel [] (''err when inserting data: '' @ format_err (shared_err s)),
                  Nack i]\<rparr>
         | Returned \<Rightarrow> s)
      else s)"

text \<open>
  When \<open>Receive\<close> is called \<open>err\<close> is \<open>nil\<close>: the check after \<open>NewClient\<close> has
  passed.
\<close>

definition relay_init :: "(Message \<times> error option) list \<Rightarrow> relay" where
  "relay_init ds = \<lparr>shared_err = None, pcs = replicate (length ds) AtPublish, out = []\<rparr>"

definition relay_run :: "(Message \<times> error option) list \<Rightarrow> nat list \<Rightarrow> relay" where
  "relay_run ds sched = fold (handler_step ds) sched (relay_init ds)"

text \<open>
  One invocation of the callback with nothing running in between: its three
  steps (the third does nothing when the second has acked).
\<close>

definition handler :: "(Message \<times> error option) list \<Rightarrow> nat \<Rightarrow> relay \<Rightarrow> relay" where
  "handler ds i s = handler_step ds i (handler_step ds i (handler_step ds i s))"

subsection \<open>Flow control of the subscription\<close>

text \<open>
  Modelled from the spec: the flow control of \<open>Receive\<close>, which is code of the
  Pub/Sub client library and not of this repository. Section 5 of the
  specification: the receive mechanism invokes the handler concurrently, bounded
  by the configured maximum number of outstanding (unacknowledged) messages, and
  this is the only backpressure. A message is outstanding from the moment it is
  handed to the callback until the callback acks or nacks it, and the library
  hands a message to the callback only while fewer than
  \<open>MaxOutstandingMessages\<close> of the subscription are outstanding. So of the steps
  a schedule asks for, the first step of a delivery is held back while the bound
  is reached; \<open>admitted\<close> is the schedule that is left.
\<close>

definition outstanding :: "relay \<Rightarrow> nat" where
  "outstanding s = length (filter (\<lambda>p. p = AtTest \<or> p = AtLog) (pcs s))"

fun admitted ::
  "int \<Rightarrow> (Message \<times> error option) list \<Rightarrow> relay \<Rightarrow> nat list \<Rightarrow> nat list" where
  "admitted bound ds s [] = []"
| "admitted bound ds s (i # sched) =
     (if i < length ds \<and> pcs s ! i = AtPublish \<and> bound \<le> int (outstanding s)
      then admitted bound ds s sched
      else i # admitted bound ds (handler_step ds i s) sched)"

text \<open>
  The handle \<open>fromClient.Subscription(name)\<close> returns, with the one receive
  setting the program touches; the library's default for it is 1000.
\<close>

record subscription =
  sub_name :: string
  MaxOutstandingMessages :: int

definition Client_Subscription :: "string \<Rightarrow> subscription" where
  "Client_Subscription name = \<lparr>sub_name = name, MaxOutstandingMessages = 1000\<rparr>"

subsection \<open>\<open>RootCmd.Run\<close>\<close>

text \<open>
  What the libraries answer: the level parser, the credential parser, the client
  constructor (it is given the project and the credentials, \<open>None\<close> for a nil
  pointer), the deliveries the subscription makes with the order in which their
  steps are asked for, and how \<open>Receive\<close> ends. \<open>Receive\<close> returns nil only when
  its context is done; \<open>Run\<close> gives it \<open>context.Background()\<close> (line 76), which
  is never done, so \<open>Receive\<close> either goes on for ever (\<open>Blocks\<close>) or returns an
  error (\<open>Fails\<close>). \<open>cfgFile\<close> is the value of the \<open>config\<close> flag, which \<open>Run\<close>
  only logs.
\<close>

datatype receive_outcome = Blocks | Fails error

record env =
  cfgFile :: string
  ParseLevel :: "string \<Rightarrow> error + Level"
  CredentialsFromJSON :: "string \<Rightarrow> error + Credentials"
  NewClient :: "string \<Rightarrow> Credentials option \<Rightarrow> error + Client"
  deliveries :: "(Message \<times> error option) list"
  schedule :: "nat list"
  receive_outcome :: receive_outcome

text \<open>
  How the process ends: \<open>os.Exit\<close> with a status, a return from \<open>Run\<close> (then
  \<open>Execute\<close> and \<open>main\<close> return and the status is 0), a Go panic (status 2), or
  not at all (\<open>Blocked\<close> in \<open>Receive\<close>).
\<close>

datatype status = Exit int | Return | Panic string | Blocked

definition exit_code :: "status \<Rightarrow> int option" where
  "exit_code st =
     (case st of Exit n \<Rightarrow> Some n | Return \<Rightarrow> Some 0 | Panic _ \<Rightarrow> Some 2 | Blocked \<Rightarrow> None)"

text \<open>
  A Go call \<open>v, err := f(...)\<close> on these libraries: on failure the value is nil
  and the error is set, on success the error is nil.
\<close>

definition go_values :: "error + 'a \<Rightarrow> 'a option \<times> error option" where
  "go_values r = (case r of Inl e \<Rightarrow> (None, Some e) | Inr v \<Rightarrow> (Some v, None))"

text \<open>Lines 141 to 143: \<open>if err != nil { logrus.Fatal(err) }\<close>, then \<open>Run\<close> returns.\<close>

definition after_receive :: "error option \<Rightarrow> process \<Rightarrow> process \<times> status" where
  "after_receive err p =
     (case err of
        Some e \<Rightarrow> (emit (Log FatalLevel [] e) p, Exit 1)
      | None \<Rightarrow> (p, Return))"

text \<open>
  Lines 132 to 143: \<open>Receive\<close> runs the callbacks on the deliveries, under the
  flow control of the subscription; when it returns its result is assigned to
  \<open>err\<close>.
\<close>

definition relayed :: "env \<Rightarrow> subscription \<Rightarrow> event list" where
  "relayed E sub =
     out (relay_run (deliveries E)
       (admitted (MaxOutstandingMessages sub) (deliveries E) (relay_init (deliveries E))
          (schedule E)))"

definition receive_loop :: "env \<Rightarrow> subscription \<Rightarrow> process \<Rightarrow> process \<times> status" where
  "receive_loop E sub p =
     (let p = emit ReceiveCall p;
          p = p\<lparr>trace := trace p @ relayed E sub\<rparr>
      in case receive_outcome E of
           Blocks \<Rightarrow> (p, Blocked)
         | Fails e \<Rightarrow> after_receive (Some e) p)"

text \<open>
  Lines 111 to 130. Each pair of calls assigns \<open>err\<close> twice before it is
  tested: the second \<open>err\<close> hides the first, as the second \<open>:=\<close> overwrites it.
  A nil \<open>fromClient\<close> is dereferenced by \<open>Subscription\<close>, a nil \<open>toClient\<close> by
  \<open>Topic\<close>.
\<close>

definition connect :: "env \<Rightarrow> Config \<Rightarrow> process \<Rightarrow> process \<times> status" where
  "connect E cfg p =
     (let (fromCreds, err) = go_values (CredentialsFromJSON E (FromGoogleApplicationCredentials cfg));
          p = emit (CredentialsFromJSONCall (FromGoogleApplicationCredentials cfg)) p;
          (toCreds, err) = go_values (CredentialsFromJSON E (ToGoogleApplicationCredentials cfg));
          p = emit (CredentialsFromJSONCall (ToGoogleApplicationCredentials cfg)) p
      in case err of
           Some e \<Rightarrow> (emit (Log FatalLevel [] (''Could not find credentials: '' @ e)) p, Exit 1)
         | None \<Rightarrow>
            (let (fromClient, err) = go_values (NewClient E (FromGoogleCloudProject cfg) fromCreds);
                 p = emit (NewClientCall (FromGoogleCloudProject cfg) fromCreds) p;
                 (toClient, err) = go_values (NewClient E (ToGoogleCloudProject cfg) toCreds);
                 p = emit (NewClientCall (ToGoogleCloudProject cfg) toCreds) p
             in case err of
                  Some e \<Rightarrow>
                    (emit (Log FatalLevel [] (''Could not create pubsub Client: '' @ e)) p, Exit 1)
                | None \<Rightarrow>
                   (case fromClient of
                      None \<Rightarrow> (p, Panic ''invalid memory address or nil pointer dereference'')
                    | Some _ \<Rightarrow>
                       (let sub = Client_Subscription (PubSubSubscription cfg);
                            p = emit (Subscription (PubSubSubscription cfg)) p;
                            sub = sub\<lparr>MaxOutstandingMessages := pubSubMaxOutstandingMessages\<rparr>;
                            p = emit (SetMaxOutstandingMessages pubSubMaxOutstandingMessages) p
                        in case toClient of
                             None \<Rightarrow> (p, Panic ''invalid memory address or nil pointer dereference'')
                           | Some _ \<Rightarrow>
                               receive_loop E sub (emit (Topic (PubSubDestinationTopic cfg)) p)))))"

text \<open>Lines 76 to 90: the logger is set up and the configuration is logged.\<close>

definition startup :: "env \<Rightarrow> Config \<Rightarrow> process" where
  "startup E cfg =
     emit (Log DebugLevel
        [(paramConfig, cfgFile E),
         (paramLogLevel, LogLevel cfg),
         (paramLogFormat, LogFormat cfg),
         (paramFromGoogleCloudProject, FromGoogleCloudProject cfg),
         (paramToGoogleCloudProject, ToGoogleCloudProject cfg),
         (paramFromGoogleApplicationCredentials, FromGoogleApplicationCredentials cfg),
         (paramToGoogleApplicationCredentials, ToGoogleApplicationCredentials cfg),
         (paramPubSubSubscription, PubSubSubscription cfg),
         (paramPubSubDestinationTopic, PubSubDestinationTopic cfg)]
        ''Configuration'')
       (SetLogger (ParseLevel E) (LogLevel cfg) (LogFormat cfg) process_start)"

text \<open>
  Lines 92 to 109, then the rest. \<open>Fprintf\<close> writes the line with its newline;
  \<open>os.Exit(1)\<close> ends the process there.
\<close>

definition must_be_set :: "string \<Rightarrow> event" where
  "must_be_set name = Stderr (name @ '' variable must be set.'' @ [CHR 0x0A])"

definition Run :: "env \<Rightarrow> Config \<Rightarrow> process \<times> status" where
  "Run E cfg =
     (let p = startup E cfg
      in if FromGoogleCloudProject cfg = '''' then
           (emit (must_be_set ''FROM_GOOGLE_CLOUD_PROJECT'') p, Exit 1)
         else if ToGoogleCloudProject cfg = '''' then
           (emit (must_be_set ''TO_GOOGLE_CLOUD_PROJECT'') p, Exit 1)
         else if PubSubSubscription cfg = '''' then
           (emit (must_be_set ''PUBSUB_SUBSCRIPTION'') p, Exit 1)
         else if PubSubDestinationTopic cfg = '''' then
           (emit (must_be_set ''PUBSUB_DESTINATION_TOPIC'') p, Exit 1)
         else connect E cfg p)"

subsection \<open>Auxiliary definitions\<close>

text \<open>How far a callback has got: it has no loop, so three steps end it.\<close>

fun rank :: "pc \<Rightarrow> nat" where
  "rank AtPublish = 0"
| "rank AtTest = 1"
| "rank AtLog = 2"
| "rank Returned = 3"

text \<open>
  The number of messages outstanding after a trace: those handed to the
  callback (it publishes at once) less those acked or nacked.
\<close>

fun weight :: "event \<Rightarrow> int" where
  "weight (Publish _ _) = 1"
| "weight (Ack _) = - 1"
| "weight (Nack _) = - 1"
| "weight _ = 0"

definition in_flight :: "event list \<Rightarrow> int" where
  "in_flight t = sum_list (map weight t)"

text \<open>Kinds of events.\<close>

fun creates_client_or_subscription :: "event \<Rightarrow> bool" where
  "creates_client_or_subscription (NewClientCall _ _) = True"
| "creates_client_or_subscription (Subscription _) = True"
| "creates_client_or_subscription (Topic _) = True"
| "creates_client_or_subscription ReceiveCall = True"
| "creates_client_or_subscription _ = False"

fun is_log :: "event \<Rightarrow> bool" where
  "is_log (Log _ _ _) = True"
| "is_log _ = False"

fun is_handler_event :: "event \<Rightarrow> bool" where
  "is_handler_event (Publish _ _) = True"
| "is_handler_event (Ack _) = True"
| "is_handler_event (Nack _) = True"
| "is_handler_event (Log l _ _) = (l = ErrorLevel)"
| "is_handler_event _ = False"

text \<open>
  The four library calls of lines 111 to 120, with the credentials each client
  constructor is handed.
\<close>

definition connect_calls :: "env \<Rightarrow> Config \<Rightarrow> event list" where
  "connect_calls E cfg =
     [CredentialsFromJSONCall (FromGoogleApplicationCredentials cfg),
      CredentialsFromJSONCall (ToGoogleApplicationCredentials cfg),
      NewClientCall (FromGoogleCloudProject cfg)
        (fst (go_values (CredentialsFromJSON E (FromGoogleApplicationCredentials cfg)))),
      NewClientCall (ToGoogleCloudProject cfg)
        (fst (go_values (CredentialsFromJSON E (ToGoogleApplicationCredentials cfg))))]"

text \<open>The subscription as \<open>Run\<close> leaves it before it calls \<open>Receive\<close>.\<close>

definition Run_subscription :: "Config \<Rightarrow> subscription" where
  "Run_subscription cfg =
     (Client_Subscription (PubSubSubscription cfg))
       \<lparr>MaxOutstandingMessages := pubSubMaxOutstandingMessages\<rparr>"

text \<open>
  The configuration record as the specification words it: the six names and a
  bound on outstanding messages. \<open>Config\<close> has no field for the bound, so the
  translation to the program's record has nowhere to put it; the log settings,
  which the specification's record lacks, take the defaults of the flags.
\<close>

record Configuration =
  source_project :: string
  destination_project :: string
  source_credentials :: string
  destination_credentials :: string
  subscription_name :: string
  destination_topic_name :: string
  max_outstanding_messages :: int

definition Config_of :: "Configuration \<Rightarrow> Config" where
  "Config_of c =
     \<lparr>LogFormat = defaultLogFormat, LogLevel = defaultLogLevel,
      FromGoogleCloudProject = source_project c,
      ToGoogleCloudProject = destination_project c,
      FromGoogleApplicationCredentials = source_credentials c,
      ToGoogleApplicationCredentials = destination_credentials c,
      PubSubSubscription = subscription_name c,
      PubSubDestinationTopic = destination_topic_name c\<rparr>"

subsection \<open>Concrete inputs\<close>

text \<open>
  Two messages, a library environment in which one credential blob parses, every
  client can be built (with nil credentials the client falls back on the
  credentials of its surroundings) and \<open>Receive\<close> delivers one message before it
  fails, and a configuration with every field set.
\<close>

definition msg1 :: Message where
  "msg1 = \<lparr>ID = ''1'', Data = ''x'', Attributes = []\<rparr>"

definition msg2 :: Message where
  "msg2 = \<lparr>ID = ''2'', Data = ''y'', Attributes = [(''origin'', ''sensor'')]\<rparr>"

definition example_env :: env where
  "example_env =
     \<lparr>cfgFile = '''',
      ParseLevel = logrus_ParseLevel,
      CredentialsFromJSON =
        (\<lambda>s. if s = ''SERVICE_ACCOUNT_JSON'' then Inr (CredentialsOf s)
             else Inl ''unexpected end of JSON input''),
      NewClient = (\<lambda>project creds. Inr (ClientOf project)),
      deliveries = [(msg1, None)],
      schedule = [0, 0],
      receive_outcome = Fails ''rpc error: code = Unavailable''\<rparr>"

definition example_cfg :: Config where
  "example_cfg =
     \<lparr>LogFormat = ''json'', LogLevel = ''debug'',
      FromGoogleCloudProject = ''src-project'', ToGoogleCloudProject = ''dst-project'',
      FromGoogleApplicationCredentials = ''SERVICE_ACCOUNT_JSON'',
      ToGoogleApplicationCredentials = ''SERVICE_ACCOUNT_JSON'',
      PubSubSubscription = ''orders-sub'', PubSubDestinationTopic = ''orders-copy''\<rparr>"

definition example_configuration :: Configuration where
  "example_configuration =
     \<lparr>source_project = ''src-project'', destination_project = ''dst-project'',
      source_credentials = ''SERVICE_ACCOUNT_JSON'',
      destination_credentials = ''SERVICE_ACCOUNT_JSON'',
      subscription_name = ''orders-sub'', destination_topic_name = ''orders-copy'',
      max_outstanding_messages = 5\<rparr>"

text \<open>
  Six and eleven messages asked for at once, none of them settled: every callback
  takes its first step and \<open>Receive\<close> goes on.
\<close>

definition six_at_once :: env where
  "six_at_once =
     example_env
       \<lparr>deliveries := [(msg1, None), (msg1, None), (msg1, None), (msg1, None), (msg1, None),
                       (msg1, None)],
        schedule := [0, 1, 2, 3, 4, 5],
        receive_outcome := Blocks\<rparr>"

definition eleven_at_once :: env where
  "eleven_at_once =
     example_env
       \<lparr>deliveries := [(msg1, None), (msg1, None), (msg1, None), (msg1, None), (msg1, None),
                       (msg1, None), (msg1, None), (msg1, None), (msg1, None), (msg1, None),
                       (msg1, None)],
        schedule := [0, 1, 2, 3, 4, 5, 6, 7, 8, 9, 10],
        receive_outcome := Blocks\<rparr>"

section \<open>Theorems\<close>

subsection \<open>The logger\<close>

text \<open>
  C10. For a level string that the parser rejects, \<open>SetLogger\<close> returns (it has
  no failing branch), logs one error and sets the global level to info; for a
  level string the parser accepts, it sets the global level to the parsed level
  and logs nothing. In both cases the formatter is the one chosen from the format
  string: the level string has no part in it.
\<close>

theorem SetLogger_level_and_formatter:
  "(parse ll = Inl e \<longrightarrow>
      level (SetLogger parse ll lf p) = InfoLevel \<and>
      trace (SetLogger parse ll lf p) =
        trace p @ [Log ErrorLevel [] (''log level is not ok, setting to info by default : '' @ e)]) \<and>
   (parse ll = Inr l \<longrightarrow>
      level (SetLogger parse ll lf p) = l \<and>
      trace (SetLogger parse ll lf p) = trace p) \<and>
   formatter (SetLogger parse ll lf p) = formatter (SetLogger parse ll' lf p) \<and>
   formatter (SetLogger parse ll lf p) =
     (if lf = ''json'' then JSONFormatter [(''level'', ''severity''), (''msg'', ''message'')]
      else TextFormatter True True True True)"
  by (simp add: SetLogger_def emit_def Let_def split: sum.split)

lemma logrus_ParseLevel_examples:
  "logrus_ParseLevel ''debug'' = Inr DebugLevel"
  "logrus_ParseLevel ''WARN'' = Inr WarnLevel"
  "logrus_ParseLevel ''verbose'' =
     Inl (''not a valid logrus Level: '' @ [CHR 0x22] @ ''verbose'' @ [CHR 0x22])"
  by (simp_all add: logrus_ParseLevel_def to_lower_def quote_def)

theorem SetLogger_level_and_formatter_witness:
  "logrus_ParseLevel ''verbose'' =
     Inl (''not a valid logrus Level: '' @ [CHR 0x22] @ ''verbose'' @ [CHR 0x22]) \<and>
   level (SetLogger logrus_ParseLevel ''verbose'' ''json'' process_start) = InfoLevel \<and>
   trace (SetLogger logrus_ParseLevel ''verbose'' ''json'' process_start) =
     [Log ErrorLevel []
        (''log level is not ok, setting to info by default : '' @
         ''not a valid logrus Level: '' @ [CHR 0x22] @ ''verbose'' @ [CHR 0x22])] \<and>
   logrus_ParseLevel ''WARN'' = Inr WarnLevel \<and>
   level (SetLogger logrus_ParseLevel ''WARN'' ''text'' process_start) = WarnLevel \<and>
   trace (SetLogger logrus_ParseLevel ''WARN'' ''text'' process_start) = [] \<and>
   formatter (SetLogger logrus_ParseLevel ''verbose'' ''json'' process_start) =
     formatter (SetLogger logrus_ParseLevel ''WARN'' ''json'' process_start)"
proof -
  note bad = logrus_ParseLevel_examples(3)
  note good = logrus_ParseLevel_examples(2)
  from SetLogger_level_and_formatter
         [of logrus_ParseLevel "''verbose''"
             "''not a valid logrus Level: '' @ [CHR 0x22] @ ''verbose'' @ [CHR 0x22]"
             "''json''" process_start WarnLevel "''WARN''"]
       SetLogger_level_and_formatter
         [of logrus_ParseLevel "''WARN''" "''x''" "''text''" process_start WarnLevel "''WARN''"]
       bad good
  show ?thesis by (simp add: process_start_def)
qed

lemmas run_eval =
  Run_def startup_def connect_def receive_loop_def after_receive_def relayed_def
  Client_Subscription_def relay_run_def relay_init_def handler_step_def outstanding_def
  go_values_def emit_def SetLogger_def must_be_set_def process_start_def Let_def
  logrus_ParseLevel_examples

subsection \<open>The receive handler under every schedule\<close>

lemma relay_run_snoc: "relay_run ds (sched @ [j]) = handler_step ds j (relay_run ds sched)"
  by (simp add: relay_run_def)

lemma relay_run_Nil: "relay_run ds [] = relay_init ds"
  by (simp add: relay_run_def)

lemma length_pcs_step: "length (pcs (handler_step ds j s)) = length (pcs s)"
  by (simp add: handler_step_def split: pc.split option.split)

lemma length_pcs_run: "length (pcs (relay_run ds sched)) = length ds"
  by (induction sched rule: rev_induct)
     (simp_all add: relay_run_snoc relay_run_Nil length_pcs_step relay_init_def)

lemma pcs_step_other:
  "i \<noteq> j \<Longrightarrow> pcs (handler_step ds j s) ! i = pcs s ! i"
  by (simp add: handler_step_def split: pc.split option.split)

text \<open>A step of a delivery moves it on, until it has returned.\<close>

lemma rank_step_same:
  "j < length ds \<Longrightarrow> length (pcs s) = length ds \<Longrightarrow>
   min 3 (Suc (rank (pcs s ! j))) \<le> rank (pcs (handler_step ds j s) ! j)"
  by (simp add: handler_step_def split: pc.split option.split)

lemma rank_run:
  "i < length ds \<Longrightarrow> min 3 (count_list sched i) \<le> rank (pcs (relay_run ds sched) ! i)"
proof (induction sched rule: rev_induct)
  case Nil
  then show ?case by simp
next
  case (snoc j sched)
  show ?case
  proof (cases "i = j")
    case True
    from snoc.prems True
    have step: "min 3 (Suc (rank (pcs (relay_run ds sched) ! j)))
            \<le> rank (pcs (handler_step ds j (relay_run ds sched)) ! j)"
      by (intro rank_step_same) (simp_all add: length_pcs_run)
    from snoc True
    have ih: "min 3 (count_list sched j) \<le> rank (pcs (relay_run ds sched) ! j)"
      by simp
    from step ih True show ?thesis
      by (auto simp add: relay_run_snoc min_def split: if_splits)
  next
    case False
    with snoc show ?thesis
      by (simp add: relay_run_snoc pcs_step_other)
  qed
qed

lemma started_step_same:
  "j < length ds \<Longrightarrow> length (pcs s) = length ds \<Longrightarrow> pcs (handler_step ds j s) ! j \<noteq> AtPublish"
  by (simp add: handler_step_def split: pc.split option.split)

lemma started_run:
  "i < length ds \<Longrightarrow> pcs (relay_run ds sched) ! i = AtPublish \<longleftrightarrow> count_list sched i = 0"
proof (induction sched rule: rev_induct)
  case Nil
  then show ?case by (simp add: relay_run_Nil relay_init_def)
next
  case (snoc j sched)
  show ?case
  proof (cases "i = j")
    case True
    with snoc.prems show ?thesis
      by (simp add: relay_run_snoc started_step_same length_pcs_run)
  next
    case False
    with snoc show ?thesis
      by (simp add: relay_run_snoc pcs_step_other)
  qed
qed

lemma out_step_count_Ack:
  "count_list (out (handler_step ds j s)) (Ack i) =
     count_list (out s) (Ack i) +
     (if i = j \<and> j < length ds \<and> pcs s ! j = AtTest \<and> shared_err s = None then 1 else 0)"
  by (simp add: handler_step_def split: pc.split option.split)

lemma out_step_count_Nack:
  "count_list (out (handler_step ds j s)) (Nack i) =
     count_list (out s) (Nack i) +
     (if i = j \<and> j < length ds \<and> pcs s ! j = AtLog then 1 else 0)"
  by (auto simp add: handler_step_def split: pc.split option.split)

lemma pcs_step_returned:
  "j < length ds \<Longrightarrow> length (pcs s) = length ds \<Longrightarrow>
   pcs (handler_step ds j s) ! j = Returned \<longleftrightarrow>
     pcs s ! j = Returned \<or> pcs s ! j = AtLog \<or> (pcs s ! j = AtTest \<and> shared_err s = None)"
  by (auto simp add: handler_step_def split: pc.split option.split)

lemma settled_run:
  "i < length ds \<Longrightarrow>
   count_list (out (relay_run ds sched)) (Ack i) + count_list (out (relay_run ds sched)) (Nack i) =
     (if pcs (relay_run ds sched) ! i = Returned then 1 else 0)"
proof (induction sched rule: rev_induct)
  case Nil
  then show ?case by (simp add: relay_run_Nil relay_init_def)
next
  case (snoc j sched)
  show ?case
  proof (cases "i = j")
    case True
    with snoc show ?thesis
      by (cases "pcs (relay_run ds sched) ! j")
         (auto simp add: relay_run_snoc out_step_count_Ack out_step_count_Nack pcs_step_returned
            length_pcs_run)
  next
    case False
    with snoc show ?thesis
      by (simp add: relay_run_snoc out_step_count_Ack out_step_count_Nack pcs_step_other)
  qed
qed

lemma publish_step:
  "Publish i m \<in> set (out (handler_step ds j s)) \<longleftrightarrow>
     Publish i m \<in> set (out s) \<or>
     (i = j \<and> j < length ds \<and> pcs s ! j = AtPublish \<and> m = fst (ds ! j))"
  by (auto simp add: handler_step_def split: pc.split option.split)

lemma publish_run:
  "Publish i m \<in> set (out (relay_run ds sched)) \<longleftrightarrow>
     i < length ds \<and> m = fst (ds ! i) \<and> 1 \<le> count_list sched i"
proof (induction sched rule: rev_induct)
  case Nil
  then show ?case by (simp add: relay_run_Nil relay_init_def)
next
  case (snoc j sched)
  show ?case
  proof (cases "i < length ds")
    case True
    with snoc started_run [OF True, of sched] show ?thesis
      by (auto simp add: relay_run_snoc publish_step)
  next
    case False
    with snoc show ?thesis
      by (auto simp add: relay_run_snoc publish_step)
  qed
qed

text \<open>
  No publish is retried: under every schedule a delivery publishes its message
  once, at its first step, whatever the result; and a step of one delivery
  leaves the program points of the others alone (\<open>pcs_step_other\<close>), so a failed
  publish stops no other delivery.
\<close>

lemma publish_count_step:
  "count_list (out (handler_step ds j s)) (Publish i m) =
     count_list (out s) (Publish i m) +
     (if i = j \<and> j < length ds \<and> pcs s ! j = AtPublish \<and> m = fst (ds ! j) then 1 else 0)"
  by (auto simp add: handler_step_def split: pc.split option.split)

lemma publish_once:
  "count_list (out (relay_run ds sched)) (Publish i m) =
     (if i < length ds \<and> m = fst (ds ! i) \<and> 1 \<le> count_list sched i then 1 else 0)"
proof (induction sched rule: rev_induct)
  case Nil
  then show ?case by (simp add: relay_run_Nil relay_init_def)
next
  case (snoc j sched)
  show ?case
  proof (cases "i < length ds")
    case True
    with snoc started_run [OF True, of sched] show ?thesis
      by (auto simp add: relay_run_snoc publish_count_step)
  next
    case False
    with snoc show ?thesis
      by (auto simp add: relay_run_snoc publish_count_step)
  qed
qed

text \<open>
  An invocation of the callback that nothing interrupts does what the source
  reads like: publish, then ack on success, or log and nack on failure.
\<close>

lemma handler_alone:
  "i < length ds \<Longrightarrow> length (pcs s) = length ds \<Longrightarrow> pcs s ! i = AtPublish \<Longrightarrow>
   out (handler ds i s) =
     out s @ (case snd (ds ! i) of
                None \<Rightarrow> [Publish i (fst (ds ! i)), Ack i]
              | Some e \<Rightarrow> [Publish i (fst (ds ! i)),
                  Log ErrorLevel [] (''err when inserting data: '' @ e), Nack i]) \<and>
   pcs (handler ds i s) ! i = Returned"
  by (simp add: handler_def handler_step_def format_err_def split: option.split)

text \<open>
  C3. Under every schedule, a delivery whose callback has returned has had exactly
  one of ack and nack invoked on it, and ack at most once; before the callback
  returns neither has been invoked; and a callback that has taken its three
  steps has returned. This holds on both branches and whatever the other
  deliveries do.
\<close>

theorem handler_exactly_one_of_ack_nack:
  "i < length ds \<Longrightarrow>
   (3 \<le> count_list sched i \<longrightarrow> pcs (relay_run ds sched) ! i = Returned) \<and>
   (pcs (relay_run ds sched) ! i = Returned \<longrightarrow>
      count_list (out (relay_run ds sched)) (Ack i) +
      count_list (out (relay_run ds sched)) (Nack i) = 1 \<and>
      count_list (out (relay_run ds sched)) (Ack i) \<le> 1) \<and>
   (pcs (relay_run ds sched) ! i \<noteq> Returned \<longrightarrow>
      count_list (out (relay_run ds sched)) (Ack i) = 0 \<and>
      count_list (out (relay_run ds sched)) (Nack i) = 0)"
proof -
  assume i: "i < length ds"
  have ret: "3 \<le> count_list sched i \<longrightarrow> pcs (relay_run ds sched) ! i = Returned"
    using rank_run [OF i, of sched] by (cases "pcs (relay_run ds sched) ! i") simp_all
  from settled_run [OF i, of sched] ret show ?thesis
    by (simp split: if_splits)
qed

theorem handler_exactly_one_of_ack_nack_witness:
  "(0::nat) < length [(msg1, None), (msg2, Some ''unavailable'')] \<and>
   3 \<le> count_list [1, 0, 0, 1, 0, 1] (0::nat) \<and>
   pcs (relay_run [(msg1, None), (msg2, Some ''unavailable'')] [1, 0, 0, 1, 0, 1]) ! 0 = Returned \<and>
   count_list (out (relay_run [(msg1, None), (msg2, Some ''unavailable'')] [1, 0, 0, 1, 0, 1]))
     (Ack 0) +
   count_list (out (relay_run [(msg1, None), (msg2, Some ''unavailable'')] [1, 0, 0, 1, 0, 1]))
     (Nack 0) = 1 \<and>
   pcs (relay_run [(msg1, None), (msg2, Some ''unavailable'')] [1]) ! 0 \<noteq> Returned \<and>
   count_list (out (relay_run [(msg1, None), (msg2, Some ''unavailable'')] [1])) (Ack 0) = 0"
proof -
  have len: "(0::nat) < length [(msg1, None), (msg2, Some ''unavailable'')]" by simp
  have thrice: "3 \<le> count_list [1, 0, 0, 1, 0, 1] (0::nat)" by simp
  have early: "pcs (relay_run [(msg1, None), (msg2, Some ''unavailable'')] [1]) ! 0 \<noteq> Returned"
    by (simp add: relay_run_def relay_init_def handler_step_def)
  from handler_exactly_one_of_ack_nack [OF len, of "[1, 0, 0, 1, 0, 1]"]
       handler_exactly_one_of_ack_nack [OF len, of "[1]"] thrice early
  show ?thesis by simp
qed

text \<open>
  C7. Under every schedule, a message published to the destination topic for
  delivery \<open>i\<close> is the message that delivery \<open>i\<close> received, with the same
  payload and the same attributes; and a delivery that has taken a step has
  published its message.
\<close>

theorem publish_is_received_message:
  "(Publish i m \<in> set (out (relay_run ds sched)) \<longrightarrow>
      i < length ds \<and> m = fst (ds ! i) \<and>
      Data m = Data (fst (ds ! i)) \<and> Attributes m = Attributes (fst (ds ! i))) \<and>
   (i < length ds \<and> 1 \<le> count_list sched i \<longrightarrow>
      Publish i (fst (ds ! i)) \<in> set (out (relay_run ds sched)))"
  by (simp add: publish_run)

theorem publish_is_received_message_witness:
  "Publish 1 msg2 \<in> set (out (relay_run [(msg1, None), (msg2, Some ''unavailable'')] [1, 0])) \<and>
   (1::nat) < length [(msg1, None), (msg2, Some ''unavailable'')] \<and>
   1 \<le> count_list [1, 0] (1::nat) \<and>
   msg2 = fst ([(msg1, None), (msg2, Some ''unavailable'')] ! 1) \<and>
   Data msg2 = ''y'' \<and> Attributes msg2 = [(''origin'', ''sensor'')]"
proof -
  have len: "(1::nat) < length [(msg1, None), (msg2, Some ''unavailable'')]" by simp
  have once: "1 \<le> count_list [1, 0] (1::nat)" by simp
  from publish_is_received_message
         [of 1 msg2 "[(msg1, None), (msg2, Some ''unavailable'')]" "[1, 0]"] len once
  show ?thesis by (simp add: msg2_def)
qed

text \<open>
  C1. The claim is that a message whose publish succeeds is acked once and never
  nacked. Two deliveries are in flight: the publish of message 1 succeeds, the
  publish of message 2 fails with \<open>unavailable\<close>. Message 1 publishes (and
  stores nil in \<open>err\<close>), message 2 publishes (and stores its error in the same
  \<open>err\<close>), then the callback of message 1 tests \<open>err\<close>: it finds the error of
  message 2, logs it and nacks message 1, which is never acked.
\<close>

theorem successful_publish_nacked_under_interleaving:
  "snd ([(msg1, None), (msg2, Some ''unavailable'')] ! 0) = None \<and>
   out (relay_run [(msg1, None), (msg2, Some ''unavailable'')] [0, 1, 0, 1, 0, 1]) =
     [Publish 0 msg1, Publish 1 msg2,
      Log ErrorLevel [] ''err when inserting data: unavailable'', Nack 0,
      Log ErrorLevel [] ''err when inserting data: unavailable'', Nack 1] \<and>
   pcs (relay_run [(msg1, None), (msg2, Some ''unavailable'')] [0, 1, 0, 1, 0, 1]) ! 0 = Returned \<and>
   count_list (out (relay_run [(msg1, None), (msg2, Some ''unavailable'')] [0, 1, 0, 1, 0, 1]))
     (Ack 0) = 0 \<and>
   count_list (out (relay_run [(msg1, None), (msg2, Some ''unavailable'')] [0, 1, 0, 1, 0, 1]))
     (Nack 0) = 1"
  by (simp add: relay_run_def relay_init_def handler_step_def format_err_def)

text \<open>
  C2. The claim is that a message whose publish fails is nacked once and never
  acked, with the error logged. The same two deliveries in the other order: the
  failed publish of message 2 stores its error, the successful publish of
  message 1 stores nil over it, and the callback of message 2 then finds nil:
  message 2 is acked, never nacked, and nothing is logged.
\<close>

theorem failed_publish_acked_under_interleaving:
  "snd ([(msg2, Some ''unavailable''), (msg1, None)] ! 0) = Some ''unavailable'' \<and>
   out (relay_run [(msg2, Some ''unavailable''), (msg1, None)] [0, 1, 0, 1]) =
     [Publish 0 msg2, Publish 1 msg1, Ack 0, Ack 1] \<and>
   pcs (relay_run [(msg2, Some ''unavailable''), (msg1, None)] [0, 1, 0, 1]) ! 0 = Returned \<and>
   count_list (out (relay_run [(msg2, Some ''unavailable''), (msg1, None)] [0, 1, 0, 1])) (Ack 0) = 1 \<and>
   count_list (out (relay_run [(msg2, Some ''unavailable''), (msg1, None)] [0, 1, 0, 1])) (Nack 0) = 0"
  by (simp add: relay_run_def relay_init_def handler_step_def)

text \<open>
  The second read of \<open>err\<close> can differ from the first. The callback of message 2
  finds its own error at the test; the publish of message 1 then stores nil;
  the \<open>Errorf\<close> of message 2 reads nil, so what is logged before the nack is
  \<open><nil>\<close> and not the error.
\<close>

lemma nil_logged_before_nack:
  "out (relay_run [(msg2, Some ''unavailable''), (msg1, None)] [0, 0, 1, 0, 1]) =
     [Publish 0 msg2, Publish 1 msg1,
      Log ErrorLevel [] ''err when inserting data: <nil>'', Nack 0, Ack 1]"
  by (simp add: relay_run_def relay_init_def handler_step_def format_err_def)

subsection \<open>Flow control\<close>

lemma in_flight_append: "in_flight (xs @ ys) = in_flight xs + in_flight ys"
  by (simp add: in_flight_def)

lemma in_flight_weightless: "list_all (\<lambda>ev. weight ev = 0) t \<Longrightarrow> in_flight (take k t) = 0"
  by (induction t arbitrary: k) (auto simp add: in_flight_def take_Cons')

lemma prefixes_append:
  assumes "\<forall>k. in_flight (take k xs) \<le> b"
    and "\<forall>k. in_flight xs + in_flight (take k ys) \<le> b"
  shows "in_flight (take k (xs @ ys)) \<le> b"
proof (cases "k \<le> length xs")
  case True
  with assms(1) show ?thesis by simp
next
  case False
  with assms(2) show ?thesis by (simp add: in_flight_append)
qed

lemma length_filter_update:
  "i < length xs \<Longrightarrow>
   int (length (filter P (xs[i := v]))) =
     int (length (filter P xs)) - (if P (xs ! i) then 1 else 0) + (if P v then 1 else 0)"
proof (induction xs arbitrary: i)
  case Nil
  then show ?case by simp
next
  case (Cons x xs)
  show ?case
  proof (cases i)
    case 0
    then show ?thesis by simp
  next
    case (Suc n)
    with Cons.prems have "n < length xs" by simp
    from Cons.IH [OF this] Suc show ?thesis by (auto split: if_splits)
  qed
qed

lemma outstanding_step:
  "length (pcs s) = length ds \<Longrightarrow>
   int (outstanding (handler_step ds i s)) =
     int (outstanding s) +
     (if i < length ds \<and> pcs s ! i = AtPublish then 1
      else if i < length ds \<and> pcs s ! i = AtLog then - 1
      else if i < length ds \<and> pcs s ! i = AtTest \<and> shared_err s = None then - 1
      else 0)"
proof (cases "i < length ds")
  case True
  assume len: "length (pcs s) = length ds"
  with True have i: "i < length (pcs s)" by simp
  show ?thesis
    using True length_filter_update [OF i, of "\<lambda>p. p = AtTest \<or> p = AtLog"]
    by (cases "pcs s ! i"; cases "shared_err s")
       (simp_all add: handler_step_def outstanding_def)
next
  case False
  then show ?thesis by (simp add: handler_step_def)
qed

lemma in_flight_step:
  "in_flight (out (handler_step ds i s)) =
     in_flight (out s) +
     (if i < length ds \<and> pcs s ! i = AtPublish then 1
      else if i < length ds \<and> pcs s ! i = AtLog then - 1
      else if i < length ds \<and> pcs s ! i = AtTest \<and> shared_err s = None then - 1
      else 0)"
  by (simp add: handler_step_def in_flight_def split: pc.split option.split)

lemma out_step_new:
  "\<exists>new. out (handler_step ds i s) = out s @ new \<and>
     (\<forall>k. in_flight (take k new) \<le>
        (if i < length ds \<and> pcs s ! i = AtPublish then 1 else 0))"
  by (auto simp add: handler_step_def in_flight_def take_Cons' split: pc.split option.split)

text \<open>
  A step that the flow control lets through keeps the number of outstanding
  messages, which is what the trace shows, within the bound, at the end of
  the step and at every moment before.
\<close>

lemma step_keeps_bound:
  assumes len: "length (pcs s) = length ds"
    and eq: "in_flight (out s) = int (outstanding s)"
    and le: "int (outstanding s) \<le> b"
    and pre: "\<forall>k. in_flight (take k (out s)) \<le> b"
    and ok: "\<not> (i < length ds \<and> pcs s ! i = AtPublish \<and> b \<le> int (outstanding s))"
  shows "length (pcs (handler_step ds i s)) = length ds"
    and "in_flight (out (handler_step ds i s)) = int (outstanding (handler_step ds i s))"
    and "int (outstanding (handler_step ds i s)) \<le> b"
    and "\<forall>k. in_flight (take k (out (handler_step ds i s))) \<le> b"
proof -
  show "length (pcs (handler_step ds i s)) = length ds"
    using len by (simp add: length_pcs_step)
  show "in_flight (out (handler_step ds i s)) = int (outstanding (handler_step ds i s))"
    using eq by (simp add: outstanding_step [OF len] in_flight_step)
  show "int (outstanding (handler_step ds i s)) \<le> b"
    using le ok by (auto simp add: outstanding_step [OF len])
  from out_step_new [of ds i s] obtain new
    where new: "out (handler_step ds i s) = out s @ new"
      and small: "\<forall>k. in_flight (take k new) \<le>
        (if i < length ds \<and> pcs s ! i = AtPublish then 1 else 0)"
    by blast
  have "\<forall>k. in_flight (out s) + in_flight (take k new) \<le> b"
  proof
    fix k
    from small have "in_flight (take k new) \<le>
        (if i < length ds \<and> pcs s ! i = AtPublish then 1 else 0)"
      by blast
    with eq le ok show "in_flight (out s) + in_flight (take k new) \<le> b"
      by (auto split: if_splits)
  qed
  with pre have "\<forall>k. in_flight (take k (out s @ new)) \<le> b"
    by (blast intro: prefixes_append)
  then show "\<forall>k. in_flight (take k (out (handler_step ds i s))) \<le> b"
    unfolding new .
qed

lemma admitted_keeps_bound:
  "length (pcs s) = length ds \<Longrightarrow> in_flight (out s) = int (outstanding s) \<Longrightarrow>
   int (outstanding s) \<le> b \<Longrightarrow> \<forall>k. in_flight (take k (out s)) \<le> b \<Longrightarrow>
   \<forall>k. in_flight (take k (out (fold (handler_step ds) (admitted b ds s sched) s))) \<le> b"
proof (induction b ds s sched rule: admitted.induct)
  case (1 bound ds s)
  then show ?case by simp
next
  case (2 bound ds s i sched)
  show ?case
  proof (cases "i < length ds \<and> pcs s ! i = AtPublish \<and> bound \<le> int (outstanding s)")
    case True
    with 2 show ?thesis by simp
  next
    case False
    then have adm: "admitted bound ds s (i # sched) =
        i # admitted bound ds (handler_step ds i s) sched"
      by (simp only: admitted.simps if_False)
    from "2.IH"(2) [OF False step_keeps_bound [OF "2.prems" False]]
    show ?thesis unfolding adm by simp
  qed
qed

lemma relayed_within_bound:
  "0 \<le> MaxOutstandingMessages sub \<Longrightarrow>
   in_flight (take k (relayed E sub)) \<le> MaxOutstandingMessages sub"
proof -
  assume b: "0 \<le> MaxOutstandingMessages sub"
  have "\<forall>k. in_flight (take k (out (fold (handler_step (deliveries E))
      (admitted (MaxOutstandingMessages sub) (deliveries E) (relay_init (deliveries E))
         (schedule E))
      (relay_init (deliveries E))))) \<le> MaxOutstandingMessages sub"
    using b
    by (intro admitted_keeps_bound)
       (simp_all add: relay_init_def outstanding_def in_flight_def)
  then show ?thesis by (simp add: relayed_def relay_run_def)
qed

subsection \<open>The command\<close>

lemma trace_SetLogger:
  "trace (SetLogger parse ll lf p) =
     trace p @ (case parse ll of
                  Inl e \<Rightarrow> [Log ErrorLevel [] (''log level is not ok, setting to info by default : '' @ e)]
                | Inr l \<Rightarrow> [])"
  by (simp add: SetLogger_def emit_def Let_def split: sum.split)

lemma startup_logs: "list_all is_log (trace (startup E cfg))"
  by (simp add: startup_def emit_def trace_SetLogger process_start_def split: sum.split)

lemma is_log_not_setup: "is_log ev \<Longrightarrow> \<not> creates_client_or_subscription ev"
  by (cases ev) simp_all

lemma is_log_weightless: "is_log ev \<Longrightarrow> weight ev = 0"
  by (cases ev) simp_all

lemma startup_not_setup:
  "ReceiveCall \<notin> set (trace (startup E cfg))"
  "SetMaxOutstandingMessages n \<notin> set (trace (startup E cfg))"
  "CredentialsFromJSONCall c \<notin> set (trace (startup E cfg))"
  "\<not> list_ex creates_client_or_subscription (trace (startup E cfg))"
  "list_all (\<lambda>ev. weight ev = 0) (trace (startup E cfg))"
  using startup_logs [of E cfg]
  by (auto simp add: list_all_iff list_ex_iff dest: is_log_not_setup is_log_weightless)

lemma handler_events_step:
  "list_all is_handler_event (out s) \<Longrightarrow> list_all is_handler_event (out (handler_step ds j s))"
  by (simp add: handler_step_def split: pc.split option.split)

lemma handler_events_run: "list_all is_handler_event (out (relay_run ds sched))"
  by (induction sched rule: rev_induct)
     (simp_all add: relay_run_snoc relay_run_Nil relay_init_def handler_events_step)

lemma relayed_not_setup:
  "ReceiveCall \<notin> set (relayed E sub)"
  "SetMaxOutstandingMessages n \<notin> set (relayed E sub)"
  "Log FatalLevel fs m \<notin> set (relayed E sub)"
  using handler_events_run
          [of "deliveries E" "admitted (MaxOutstandingMessages sub) (deliveries E)
             (relay_init (deliveries E)) (schedule E)"]
  by (auto simp add: list_all_iff relayed_def)

text \<open>
  Lines 92 to 109: the four checks in their order, each with the name it prints.
  Nothing but logging comes before, and nothing after.
\<close>

lemma Run_required_fields:
  "FromGoogleCloudProject cfg = '''' \<Longrightarrow>
     Run E cfg = (emit (must_be_set ''FROM_GOOGLE_CLOUD_PROJECT'') (startup E cfg), Exit 1)"
  "FromGoogleCloudProject cfg \<noteq> '''' \<Longrightarrow> ToGoogleCloudProject cfg = '''' \<Longrightarrow>
     Run E cfg = (emit (must_be_set ''TO_GOOGLE_CLOUD_PROJECT'') (startup E cfg), Exit 1)"
  "FromGoogleCloudProject cfg \<noteq> '''' \<Longrightarrow> ToGoogleCloudProject cfg \<noteq> '''' \<Longrightarrow>
   PubSubSubscription cfg = '''' \<Longrightarrow>
     Run E cfg = (emit (must_be_set ''PUBSUB_SUBSCRIPTION'') (startup E cfg), Exit 1)"
  "FromGoogleCloudProject cfg \<noteq> '''' \<Longrightarrow> ToGoogleCloudProject cfg \<noteq> '''' \<Longrightarrow>
   PubSubSubscription cfg \<noteq> '''' \<Longrightarrow> PubSubDestinationTopic cfg = '''' \<Longrightarrow>
     Run E cfg = (emit (must_be_set ''PUBSUB_DESTINATION_TOPIC'') (startup E cfg), Exit 1)"
  by (simp_all add: Run_def Let_def)

lemma Run_connect:
  "FromGoogleCloudProject cfg \<noteq> '''' \<Longrightarrow> ToGoogleCloudProject cfg \<noteq> '''' \<Longrightarrow>
   PubSubSubscription cfg \<noteq> '''' \<Longrightarrow> PubSubDestinationTopic cfg \<noteq> '''' \<Longrightarrow>
   Run E cfg = connect E cfg (startup E cfg)"
  by (simp add: Run_def)

text \<open>The four ways through lines 111 to 130.\<close>

lemma connect_to_credentials_rejected:
  "CredentialsFromJSON E (ToGoogleApplicationCredentials cfg) = Inl e \<Longrightarrow>
   connect E cfg p =
     (p\<lparr>trace := trace p @
        [CredentialsFromJSONCall (FromGoogleApplicationCredentials cfg),
         CredentialsFromJSONCall (ToGoogleApplicationCredentials cfg),
         Log FatalLevel [] (''Could not find credentials: '' @ e)]\<rparr>, Exit 1)"
  by (cases "CredentialsFromJSON E (FromGoogleApplicationCredentials cfg)")
     (simp_all add: connect_def go_values_def emit_def Let_def)

lemma connect_to_client_failed:
  "CredentialsFromJSON E (ToGoogleApplicationCredentials cfg) = Inr c \<Longrightarrow>
   NewClient E (ToGoogleCloudProject cfg) (Some c) = Inl e \<Longrightarrow>
   connect E cfg p =
     (p\<lparr>trace := trace p @
        [CredentialsFromJSONCall (FromGoogleApplicationCredentials cfg),
         CredentialsFromJSONCall (ToGoogleApplicationCredentials cfg),
         NewClientCall (FromGoogleCloudProject cfg)
           (fst (go_values (CredentialsFromJSON E (FromGoogleApplicationCredentials cfg)))),
         NewClientCall (ToGoogleCloudProject cfg) (Some c),
         Log FatalLevel [] (''Could not create pubsub Client: '' @ e)]\<rparr>, Exit 1)"
  by (cases "CredentialsFromJSON E (FromGoogleApplicationCredentials cfg)")
     (simp_all add: connect_def go_values_def emit_def Let_def)

lemma connect_from_client_failed:
  "CredentialsFromJSON E (ToGoogleApplicationCredentials cfg) = Inr c \<Longrightarrow>
   NewClient E (ToGoogleCloudProject cfg) (Some c) = Inr tc \<Longrightarrow>
   NewClient E (FromGoogleCloudProject cfg)
     (fst (go_values (CredentialsFromJSON E (FromGoogleApplicationCredentials cfg)))) = Inl e \<Longrightarrow>
   connect E cfg p =
     (p\<lparr>trace := trace p @
        [CredentialsFromJSONCall (FromGoogleApplicationCredentials cfg),
         CredentialsFromJSONCall (ToGoogleApplicationCredentials cfg),
         NewClientCall (FromGoogleCloudProject cfg)
           (fst (go_values (CredentialsFromJSON E (FromGoogleApplicationCredentials cfg)))),
         NewClientCall (ToGoogleCloudProject cfg) (Some c)]\<rparr>,
      Panic ''invalid memory address or nil pointer dereference'')"
  by (cases "CredentialsFromJSON E (FromGoogleApplicationCredentials cfg)")
     (simp_all add: connect_def go_values_def emit_def Let_def)

lemma connect_clients_made:
  "CredentialsFromJSON E (ToGoogleApplicationCredentials cfg) = Inr c \<Longrightarrow>
   NewClient E (ToGoogleCloudProject cfg) (Some c) = Inr tc \<Longrightarrow>
   NewClient E (FromGoogleCloudProject cfg)
     (fst (go_values (CredentialsFromJSON E (FromGoogleApplicationCredentials cfg)))) = Inr fc \<Longrightarrow>
   connect E cfg p =
     receive_loop E (Run_subscription cfg) (p\<lparr>trace := trace p @
        [CredentialsFromJSONCall (FromGoogleApplicationCredentials cfg),
         CredentialsFromJSONCall (ToGoogleApplicationCredentials cfg),
         NewClientCall (FromGoogleCloudProject cfg)
           (fst (go_values (CredentialsFromJSON E (FromGoogleApplicationCredentials cfg)))),
         NewClientCall (ToGoogleCloudProject cfg) (Some c),
         Subscription (PubSubSubscription cfg),
         SetMaxOutstandingMessages pubSubMaxOutstandingMessages,
         Topic (PubSubDestinationTopic cfg)]\<rparr>)"
  by (cases "CredentialsFromJSON E (FromGoogleApplicationCredentials cfg)")
     (simp_all add: connect_def go_values_def emit_def Let_def Run_subscription_def)

lemma receive_loop_result:
  "receive_loop E sub p =
     (p\<lparr>trace := trace p @ [ReceiveCall] @ relayed E sub @
          (case receive_outcome E of Fails e \<Rightarrow> [Log FatalLevel [] e] | Blocks \<Rightarrow> [])\<rparr>,
      case receive_outcome E of Fails e \<Rightarrow> Exit 1 | Blocks \<Rightarrow> Blocked)"
  by (simp add: receive_loop_def after_receive_def emit_def Let_def split: receive_outcome.split)

text \<open>
  Every run of \<open>Run\<close> has one of five shapes: a required field is missing; the
  destination credentials do not parse; the destination client cannot be built;
  the source client is nil; or the receive loop is entered.
\<close>

lemma Run_shapes:
  obtains
    (missing) name where
      "FromGoogleCloudProject cfg = '''' \<or> ToGoogleCloudProject cfg = '''' \<or>
       PubSubSubscription cfg = '''' \<or> PubSubDestinationTopic cfg = ''''"
      "snd (Run E cfg) = Exit 1"
      "trace (fst (Run E cfg)) = trace (startup E cfg) @ [must_be_set name]"
  | (credentials) e where
      "CredentialsFromJSON E (ToGoogleApplicationCredentials cfg) = Inl e"
      "snd (Run E cfg) = Exit 1"
      "trace (fst (Run E cfg)) =
         trace (startup E cfg) @ take 2 (connect_calls E cfg) @
         [Log FatalLevel [] (''Could not find credentials: '' @ e)]"
  | (client) e where
      "snd (Run E cfg) = Exit 1"
      "trace (fst (Run E cfg)) =
         trace (startup E cfg) @ connect_calls E cfg @
         [Log FatalLevel [] (''Could not create pubsub Client: '' @ e)]"
  | (nil_client)
      "snd (Run E cfg) = Panic ''invalid memory address or nil pointer dereference''"
      "trace (fst (Run E cfg)) = trace (startup E cfg) @ connect_calls E cfg"
  | (loop)
      "FromGoogleCloudProject cfg \<noteq> ''''" "ToGoogleCloudProject cfg \<noteq> ''''"
      "PubSubSubscription cfg \<noteq> ''''" "PubSubDestinationTopic cfg \<noteq> ''''"
      "snd (Run E cfg) = (case receive_outcome E of Fails e \<Rightarrow> Exit 1 | Blocks \<Rightarrow> Blocked)"
      "trace (fst (Run E cfg)) =
         trace (startup E cfg) @ connect_calls E cfg @
         [Subscription (PubSubSubscription cfg),
          SetMaxOutstandingMessages pubSubMaxOutstandingMessages,
          Topic (PubSubDestinationTopic cfg)] @
         [ReceiveCall] @ relayed E (Run_subscription cfg) @
         (case receive_outcome E of Fails e \<Rightarrow> [Log FatalLevel [] e] | Blocks \<Rightarrow> [])"
proof (cases "FromGoogleCloudProject cfg = '''' \<or> ToGoogleCloudProject cfg = '''' \<or>
              PubSubSubscription cfg = '''' \<or> PubSubDestinationTopic cfg = ''''")
  case True
  then have "\<exists>name. Run E cfg = (emit (must_be_set name) (startup E cfg), Exit 1)"
    using Run_required_fields [of cfg E] by metis
  then obtain name where "Run E cfg = (emit (must_be_set name) (startup E cfg), Exit 1)"
    by blast
  with True missing [of name] show ?thesis by (simp add: emit_def)
next
  case False
  then have run: "Run E cfg = connect E cfg (startup E cfg)"
    by (simp add: Run_connect)
  show ?thesis
  proof (cases "CredentialsFromJSON E (ToGoogleApplicationCredentials cfg)")
    case (Inl e)
    with run credentials [of e] show ?thesis
      by (simp add: connect_to_credentials_rejected connect_calls_def)
  next
    case c: (Inr c)
    show ?thesis
    proof (cases "NewClient E (ToGoogleCloudProject cfg) (Some c)")
      case (Inl e)
      with run c client [of e] show ?thesis
        by (simp add: connect_to_client_failed connect_calls_def go_values_def)
    next
      case tc: (Inr tc)
      show ?thesis
      proof (cases "NewClient E (FromGoogleCloudProject cfg)
          (fst (go_values (CredentialsFromJSON E (FromGoogleApplicationCredentials cfg))))")
        case (Inl e)
        with run c tc nil_client show ?thesis
          by (simp add: connect_from_client_failed connect_calls_def go_values_def)
      next
        case (Inr fc)
        with run c tc False loop show ?thesis
          by (simp add: connect_clients_made receive_loop_result connect_calls_def go_values_def)
      qed
    qed
  qed
qed

lemma connect_calls_not_receive:
  "ReceiveCall \<notin> set (connect_calls E cfg)"
  "SetMaxOutstandingMessages n \<notin> set (connect_calls E cfg)"
  "ReceiveCall \<notin> set (take 2 (connect_calls E cfg))"
  "SetMaxOutstandingMessages n \<notin> set (take 2 (connect_calls E cfg))"
  "list_all (\<lambda>ev. weight ev = 0) (connect_calls E cfg)"
  "list_all (\<lambda>ev. weight ev = 0) (take 2 (connect_calls E cfg))"
  by (simp_all add: connect_calls_def)

text \<open>
  What holds of C5: when the source project, the destination project, the
  subscription name or the destination topic name is empty, the process writes
  the line that names the first such variable to stderr and exits with status 1;
  before that it has only logged: no credential is parsed and no client,
  subscription or topic is created.
\<close>

lemma required_fields_checked_first:
  assumes "FromGoogleCloudProject cfg = '''' \<or> ToGoogleCloudProject cfg = '''' \<or>
           PubSubSubscription cfg = '''' \<or> PubSubDestinationTopic cfg = ''''"
  shows "snd (Run E cfg) = Exit 1 \<and>
         last (trace (fst (Run E cfg))) =
           must_be_set
             (if FromGoogleCloudProject cfg = '''' then ''FROM_GOOGLE_CLOUD_PROJECT''
              else if ToGoogleCloudProject cfg = '''' then ''TO_GOOGLE_CLOUD_PROJECT''
              else if PubSubSubscription cfg = '''' then ''PUBSUB_SUBSCRIPTION''
              else ''PUBSUB_DESTINATION_TOPIC'') \<and>
         butlast (trace (fst (Run E cfg))) = trace (startup E cfg) \<and>
         list_all is_log (butlast (trace (fst (Run E cfg)))) \<and>
         \<not> list_ex creates_client_or_subscription (trace (fst (Run E cfg)))"
proof -
  let ?name = "if FromGoogleCloudProject cfg = '''' then ''FROM_GOOGLE_CLOUD_PROJECT''
              else if ToGoogleCloudProject cfg = '''' then ''TO_GOOGLE_CLOUD_PROJECT''
              else if PubSubSubscription cfg = '''' then ''PUBSUB_SUBSCRIPTION''
              else ''PUBSUB_DESTINATION_TOPIC''"
  from assms have "Run E cfg = (emit (must_be_set ?name) (startup E cfg), Exit 1)"
    by (auto simp add: Run_required_fields)
  then have st: "snd (Run E cfg) = Exit 1"
    and tr: "trace (fst (Run E cfg)) = trace (startup E cfg) @ [must_be_set ?name]"
    by (simp_all add: emit_def)
  from tr have "last (trace (fst (Run E cfg))) = must_be_set ?name"
    by simp
  moreover from tr have "butlast (trace (fst (Run E cfg))) = trace (startup E cfg)"
    by simp
  moreover from tr have "list_all is_log (butlast (trace (fst (Run E cfg))))"
    by (simp add: startup_logs)
  moreover from tr have "\<not> list_ex creates_client_or_subscription (trace (fst (Run E cfg)))"
    using startup_not_setup(4) [of E cfg] by (simp add: must_be_set_def)
  ultimately show ?thesis using st by blast
qed

text \<open>
  And of the destination side, for C5 and C4: an error of the credential parser
  (as on empty credentials, when the parser rejects them) or of the client
  constructor is logged at fatal level, which logrus writes to stderr, and the
  process exits with status 1; \<open>Receive\<close> is not called, and after a parse error
  no client, subscription or topic has been created.
\<close>

lemma destination_side_errors_are_fatal:
  assumes "FromGoogleCloudProject cfg \<noteq> ''''" "ToGoogleCloudProject cfg \<noteq> ''''"
    "PubSubSubscription cfg \<noteq> ''''" "PubSubDestinationTopic cfg \<noteq> ''''"
  shows "CredentialsFromJSON E (ToGoogleApplicationCredentials cfg) = Inl e \<Longrightarrow>
         snd (Run E cfg) = Exit 1 \<and>
         last (trace (fst (Run E cfg))) = Log FatalLevel [] (''Could not find credentials: '' @ e) \<and>
         \<not> list_ex creates_client_or_subscription (trace (fst (Run E cfg)))"
    and "CredentialsFromJSON E (ToGoogleApplicationCredentials cfg) = Inr c \<Longrightarrow>
         NewClient E (ToGoogleCloudProject cfg) (Some c) = Inl e \<Longrightarrow>
         snd (Run E cfg) = Exit 1 \<and>
         last (trace (fst (Run E cfg))) =
           Log FatalLevel [] (''Could not create pubsub Client: '' @ e) \<and>
         ReceiveCall \<notin> set (trace (fst (Run E cfg)))"
  using assms
  by (simp_all add: Run_connect connect_to_credentials_rejected connect_to_client_failed
        startup_not_setup)

text \<open>
  C5. The claim is that an empty required field, the credentials among them,
  ends the process with a message on stderr before any client or subscription
  is created. It fails for the source credentials. Empty source credentials do
  not parse, but the parse of the destination credentials stores nil over the
  error (lines 111 and 112), so nothing is written and the process does not end:
  the source client is built with nil credentials, the subscription and the topic
  are created, and a message is relayed.
\<close>

theorem empty_source_credentials_reach_the_loop:
  "FromGoogleApplicationCredentials
     (example_cfg\<lparr>FromGoogleApplicationCredentials := ''''\<rparr>) = '''' \<and>
   CredentialsFromJSON example_env '''' = Inl ''unexpected end of JSON input'' \<and>
   trace (fst (connect example_env
       (example_cfg\<lparr>FromGoogleApplicationCredentials := ''''\<rparr>) process_start)) =
     [CredentialsFromJSONCall '''', CredentialsFromJSONCall ''SERVICE_ACCOUNT_JSON'',
      NewClientCall ''src-project'' None,
      NewClientCall ''dst-project'' (Some (CredentialsOf ''SERVICE_ACCOUNT_JSON'')),
      Subscription ''orders-sub'', SetMaxOutstandingMessages 10, Topic ''orders-copy'',
      ReceiveCall, Publish 0 msg1, Ack 0,
      Log FatalLevel [] ''rpc error: code = Unavailable''] \<and>
   list_ex creates_client_or_subscription
     (trace (fst (Run example_env (example_cfg\<lparr>FromGoogleApplicationCredentials := ''''\<rparr>))))"
  by (simp add: run_eval example_env_def example_cfg_def pubSubMaxOutstandingMessages_def)

text \<open>
  C8. Once \<open>Receive\<close> is called, whatever the callbacks do is all that happens
  until it returns: while it does not return the process does not end. When it
  returns, it returns an error (its context is never done), and the process logs
  that error at fatal level as its last act and exits with status 1.
\<close>

theorem receive_error_is_fatal:
  assumes "ReceiveCall \<in> set (trace (fst (Run E cfg)))"
  shows "(\<exists>pre. ReceiveCall \<notin> set pre \<and>
            trace (fst (Run E cfg)) =
              pre @ [ReceiveCall] @ relayed E (Run_subscription cfg) @
              (case receive_outcome E of Fails e \<Rightarrow> [Log FatalLevel [] e] | Blocks \<Rightarrow> [])) \<and>
         (\<forall>e. receive_outcome E = Fails e \<longrightarrow>
            snd (Run E cfg) = Exit 1 \<and> exit_code (snd (Run E cfg)) = Some 1 \<and>
            last (trace (fst (Run E cfg))) = Log FatalLevel [] e) \<and>
         (receive_outcome E = Blocks \<longrightarrow>
            snd (Run E cfg) = Blocked \<and> exit_code (snd (Run E cfg)) = None)"
proof (cases rule: Run_shapes [of cfg E])
  case (missing name)
  with assms show ?thesis by (simp add: startup_not_setup must_be_set_def)
next
  case (credentials e)
  with assms show ?thesis by (simp add: startup_not_setup connect_calls_not_receive)
next
  case (client e)
  with assms show ?thesis by (simp add: startup_not_setup connect_calls_not_receive)
next
  case nil_client
  with assms show ?thesis by (simp add: startup_not_setup connect_calls_not_receive)
next
  case loop
  let ?pre = "trace (startup E cfg) @ connect_calls E cfg @
         [Subscription (PubSubSubscription cfg),
          SetMaxOutstandingMessages pubSubMaxOutstandingMessages,
          Topic (PubSubDestinationTopic cfg)]"
  have "ReceiveCall \<notin> set ?pre"
    by (simp add: startup_not_setup connect_calls_not_receive)
  moreover have "trace (fst (Run E cfg)) =
      ?pre @ [ReceiveCall] @ relayed E (Run_subscription cfg) @
      (case receive_outcome E of Fails e \<Rightarrow> [Log FatalLevel [] e] | Blocks \<Rightarrow> [])"
    using loop by simp
  ultimately have "\<exists>pre. ReceiveCall \<notin> set pre \<and>
            trace (fst (Run E cfg)) =
              pre @ [ReceiveCall] @ relayed E (Run_subscription cfg) @
              (case receive_outcome E of Fails e \<Rightarrow> [Log FatalLevel [] e] | Blocks \<Rightarrow> [])"
    by blast
  with loop show ?thesis by (simp add: exit_code_def split: receive_outcome.split)
qed

theorem receive_error_is_fatal_witness:
  "ReceiveCall \<in> set (trace (fst (Run example_env example_cfg))) \<and>
   receive_outcome example_env = Fails ''rpc error: code = Unavailable'' \<and>
   snd (Run example_env example_cfg) = Exit 1 \<and>
   exit_code (snd (Run example_env example_cfg)) = Some 1 \<and>
   last (trace (fst (Run example_env example_cfg))) =
     Log FatalLevel [] ''rpc error: code = Unavailable'' \<and>
   receive_outcome six_at_once = Blocks \<and>
   ReceiveCall \<in> set (trace (fst (Run six_at_once example_cfg))) \<and>
   snd (Run six_at_once example_cfg) = Blocked \<and>
   exit_code (snd (Run six_at_once example_cfg)) = None"
proof -
  have reached: "ReceiveCall \<in> set (trace (fst (Run example_env example_cfg)))"
    by (simp add: run_eval example_env_def example_cfg_def)
  have res: "receive_outcome example_env = Fails ''rpc error: code = Unavailable''"
    by (simp add: example_env_def)
  have reached6: "ReceiveCall \<in> set (trace (fst (Run six_at_once example_cfg)))"
    by (simp add: run_eval six_at_once_def example_env_def example_cfg_def)
  have res6: "receive_outcome six_at_once = Blocks"
    by (simp add: six_at_once_def)
  from receive_error_is_fatal [OF reached] receive_error_is_fatal [OF reached6]
       reached res reached6 res6
  show ?thesis by (simp add: exit_code_def)
qed

text \<open>
  The return of \<open>Run\<close> after line 143, with status 0, would need a nil result of
  \<open>Receive\<close>; no run has it.
\<close>

lemma Run_never_returns: "snd (Run E cfg) \<noteq> Return"
  by (cases rule: Run_shapes [of cfg E]) (simp_all split: receive_outcome.split)

text \<open>
  A run of weightless events around a part that stays within a bound stays
  within it.
\<close>

lemma in_flight_weightless_all: "list_all (\<lambda>ev. weight ev = 0) t \<Longrightarrow> in_flight t = 0"
  using in_flight_weightless [of t "length t"] by simp

lemma bounded_between:
  assumes pre: "list_all (\<lambda>ev. weight ev = 0) pre"
    and post: "list_all (\<lambda>ev. weight ev = 0) post"
    and mid: "\<forall>k. in_flight (take k mid) \<le> b"
    and b: "0 \<le> b"
  shows "in_flight (take k (pre @ mid @ post)) \<le> b"
proof -
  from mid have whole: "in_flight mid \<le> b"
    by (metis order_refl take_all)
  have tail: "\<forall>k. in_flight (take k (mid @ post)) \<le> b"
  proof
    fix k
    show "in_flight (take k (mid @ post)) \<le> b"
      using mid whole by (intro prefixes_append) (simp_all add: in_flight_weightless [OF post])
  qed
  show ?thesis
    using tail b
    by (intro prefixes_append)
       (simp_all add: in_flight_weightless [OF pre] in_flight_weightless_all [OF pre])
qed

text \<open>
  C6, as amended. The bound on outstanding messages is the constant
  \<open>pubSubMaxOutstandingMessages\<close>, 10, for every configuration, and not a field
  of the configuration record: no other value is ever set, and whenever
  \<open>Receive\<close> is called the bound has been set on the subscription just before.
  Concurrent delivery never exceeds that bound: at every moment of every run, the
  messages handed to the callback and not yet acked or nacked are at most 10.
\<close>

theorem max_outstanding_is_constant:
  "(SetMaxOutstandingMessages n \<in> set (trace (fst (Run E cfg))) \<longrightarrow>
      n = pubSubMaxOutstandingMessages \<and> n = 10) \<and>
   (ReceiveCall \<in> set (trace (fst (Run E cfg))) \<longrightarrow>
      (\<exists>pre post. trace (fst (Run E cfg)) =
         pre @ [SetMaxOutstandingMessages 10, Topic (PubSubDestinationTopic cfg), ReceiveCall] @ post)) \<and>
   in_flight (take k (trace (fst (Run E cfg)))) \<le> 10"
proof (cases rule: Run_shapes [of cfg E])
  case (missing name)
  then have "list_all (\<lambda>ev. weight ev = 0) (trace (fst (Run E cfg)))"
    by (simp add: startup_not_setup must_be_set_def)
  from in_flight_weightless [OF this, of k] missing show ?thesis
    by (simp add: startup_not_setup must_be_set_def)
next
  case (credentials e)
  then have "list_all (\<lambda>ev. weight ev = 0) (trace (fst (Run E cfg)))"
    by (simp add: startup_not_setup connect_calls_not_receive)
  from in_flight_weightless [OF this, of k] credentials show ?thesis
    by (simp add: startup_not_setup connect_calls_not_receive)
next
  case (client e)
  then have "list_all (\<lambda>ev. weight ev = 0) (trace (fst (Run E cfg)))"
    by (simp add: startup_not_setup connect_calls_not_receive)
  from in_flight_weightless [OF this, of k] client show ?thesis
    by (simp add: startup_not_setup connect_calls_not_receive)
next
  case nil_client
  then have "list_all (\<lambda>ev. weight ev = 0) (trace (fst (Run E cfg)))"
    by (simp add: startup_not_setup connect_calls_not_receive)
  from in_flight_weightless [OF this, of k] nil_client show ?thesis
    by (simp add: startup_not_setup connect_calls_not_receive)
next
  case loop
  let ?pre = "trace (startup E cfg) @ connect_calls E cfg @
      [Subscription (PubSubSubscription cfg),
       SetMaxOutstandingMessages pubSubMaxOutstandingMessages,
       Topic (PubSubDestinationTopic cfg), ReceiveCall]"
  let ?post = "case receive_outcome E of Fails e \<Rightarrow> [Log FatalLevel [] e] | Blocks \<Rightarrow> []"
  have tr: "trace (fst (Run E cfg)) = ?pre @ relayed E (Run_subscription cfg) @ ?post"
    using loop by simp
  have "trace (fst (Run E cfg)) =
      (trace (startup E cfg) @ connect_calls E cfg @ [Subscription (PubSubSubscription cfg)]) @
      [SetMaxOutstandingMessages 10, Topic (PubSubDestinationTopic cfg), ReceiveCall] @
      (relayed E (Run_subscription cfg) @ ?post)"
    using loop by (simp add: pubSubMaxOutstandingMessages_def)
  then have shape: "\<exists>pre post. trace (fst (Run E cfg)) =
      pre @ [SetMaxOutstandingMessages 10, Topic (PubSubDestinationTopic cfg), ReceiveCall] @ post"
    by blast
  have only: "SetMaxOutstandingMessages n \<in> set (trace (fst (Run E cfg))) \<longrightarrow>
      n = pubSubMaxOutstandingMessages \<and> n = 10"
    using loop
    by (auto simp add: startup_not_setup connect_calls_not_receive relayed_not_setup
          pubSubMaxOutstandingMessages_def split: receive_outcome.splits)
  have bound: "MaxOutstandingMessages (Run_subscription cfg) = 10"
    by (simp add: Run_subscription_def pubSubMaxOutstandingMessages_def)
  have "in_flight (take k (?pre @ relayed E (Run_subscription cfg) @ ?post)) \<le> 10"
  proof (rule bounded_between)
    show "list_all (\<lambda>ev. weight ev = 0) ?pre"
      by (simp add: startup_not_setup connect_calls_not_receive)
    show "list_all (\<lambda>ev. weight ev = 0) ?post"
      by (simp split: receive_outcome.split)
    show "\<forall>k. in_flight (take k (relayed E (Run_subscription cfg))) \<le> 10"
      using relayed_within_bound [of "Run_subscription cfg" _ E] by (simp add: bound)
    show "(0::int) \<le> 10" by simp
  qed
  with tr have "in_flight (take k (trace (fst (Run E cfg)))) \<le> 10"
    by (simp only:)
  with shape only show ?thesis by blast
qed

theorem max_outstanding_is_constant_witness:
  "SetMaxOutstandingMessages 10 \<in> set (trace (fst (Run eleven_at_once example_cfg))) \<and>
   ReceiveCall \<in> set (trace (fst (Run eleven_at_once example_cfg))) \<and>
   pubSubMaxOutstandingMessages = 10 \<and>
   (\<exists>pre post. trace (fst (Run eleven_at_once example_cfg)) =
      pre @ [SetMaxOutstandingMessages 10, Topic (PubSubDestinationTopic example_cfg), ReceiveCall] @ post) \<and>
   length (deliveries eleven_at_once) = 11 \<and>
   relayed eleven_at_once (Run_subscription example_cfg) =
     [Publish 0 msg1, Publish 1 msg1, Publish 2 msg1, Publish 3 msg1, Publish 4 msg1,
      Publish 5 msg1, Publish 6 msg1, Publish 7 msg1, Publish 8 msg1, Publish 9 msg1] \<and>
   in_flight (trace (fst (Run eleven_at_once example_cfg))) = 10 \<and>
   in_flight (take 100 (trace (fst (Run eleven_at_once example_cfg)))) \<le> 10"
proof -
  have set10: "SetMaxOutstandingMessages 10 \<in> set (trace (fst (Run eleven_at_once example_cfg)))"
    by (simp add: run_eval eleven_at_once_def example_env_def example_cfg_def
          pubSubMaxOutstandingMessages_def)
  have reached: "ReceiveCall \<in> set (trace (fst (Run eleven_at_once example_cfg)))"
    by (simp add: run_eval eleven_at_once_def example_env_def example_cfg_def)
  have rel: "relayed eleven_at_once (Run_subscription example_cfg) =
     [Publish 0 msg1, Publish 1 msg1, Publish 2 msg1, Publish 3 msg1, Publish 4 msg1,
      Publish 5 msg1, Publish 6 msg1, Publish 7 msg1, Publish 8 msg1, Publish 9 msg1]"
    by (simp add: relayed_def relay_run_def relay_init_def handler_step_def outstanding_def
          Run_subscription_def Client_Subscription_def pubSubMaxOutstandingMessages_def
          eleven_at_once_def example_env_def)
  have total: "in_flight (trace (fst (Run eleven_at_once example_cfg))) = 10"
    by (simp add: run_eval eleven_at_once_def example_env_def example_cfg_def
          pubSubMaxOutstandingMessages_def in_flight_def)
  from max_outstanding_is_constant [of 10 eleven_at_once example_cfg 100] set10 reached rel total
  show ?thesis by (simp add: pubSubMaxOutstandingMessages_def eleven_at_once_def)
qed

text \<open>
  C6, as stated, fails: the bound is no field of the configuration. A
  configuration whose bound is 5 runs with the bound 10, since the program's
  configuration record has no field for it, and six messages are outstanding at
  once.
\<close>

theorem configured_bound_is_not_used:
  "max_outstanding_messages example_configuration = 5 \<and>
   SetMaxOutstandingMessages 5 \<notin>
     set (trace (fst (Run six_at_once (Config_of example_configuration)))) \<and>
   SetMaxOutstandingMessages 10 \<in>
     set (trace (fst (Run six_at_once (Config_of example_configuration)))) \<and>
   ReceiveCall \<in> set (trace (fst (Run six_at_once (Config_of example_configuration)))) \<and>
   in_flight (trace (fst (Run six_at_once (Config_of example_configuration)))) = 6"
  by (simp add: run_eval six_at_once_def example_env_def example_configuration_def Config_of_def
        defaultLogFormat_def defaultLogLevel_def pubSubMaxOutstandingMessages_def in_flight_def)

text \<open>
  C4. The claim is that invalid credentials or a failed client construction on
  either side are logged and end the process before the relay loop. On the
  source side neither holds. With source credentials that do not parse and
  destination credentials that do, the second assignment to \<open>err\<close> stores nil
  over the parse error: the source client is built with nil credentials and the
  relay loop runs. With a source client that cannot be built and a destination
  client that can, the error is overwritten in the same way, nothing is logged,
  and the process ends in a nil dereference.
\<close>

theorem source_side_errors_are_overwritten:
  "CredentialsFromJSON example_env ''not json'' = Inl ''unexpected end of JSON input'' \<and>
   trace (fst (connect example_env
       (example_cfg\<lparr>FromGoogleApplicationCredentials := ''not json''\<rparr>) process_start)) =
     [CredentialsFromJSONCall ''not json'', CredentialsFromJSONCall ''SERVICE_ACCOUNT_JSON'',
      NewClientCall ''src-project'' None,
      NewClientCall ''dst-project'' (Some (CredentialsOf ''SERVICE_ACCOUNT_JSON'')),
      Subscription ''orders-sub'', SetMaxOutstandingMessages 10, Topic ''orders-copy'',
      ReceiveCall, Publish 0 msg1, Ack 0,
      Log FatalLevel [] ''rpc error: code = Unavailable''] \<and>
   ReceiveCall \<in> set (trace (fst (Run example_env
       (example_cfg\<lparr>FromGoogleApplicationCredentials := ''not json''\<rparr>)))) \<and>
   NewClient (example_env\<lparr>NewClient := (\<lambda>project creds.
       if project = ''src-project'' then Inl ''dial: no route'' else Inr (ClientOf project))\<rparr>)
     ''src-project'' (Some (CredentialsOf ''SERVICE_ACCOUNT_JSON'')) = Inl ''dial: no route'' \<and>
   connect (example_env\<lparr>NewClient := (\<lambda>project creds.
       if project = ''src-project'' then Inl ''dial: no route'' else Inr (ClientOf project))\<rparr>)
     example_cfg process_start =
     (process_start\<lparr>trace :=
        [CredentialsFromJSONCall ''SERVICE_ACCOUNT_JSON'',
         CredentialsFromJSONCall ''SERVICE_ACCOUNT_JSON'',
         NewClientCall ''src-project'' (Some (CredentialsOf ''SERVICE_ACCOUNT_JSON'')),
         NewClientCall ''dst-project'' (Some (CredentialsOf ''SERVICE_ACCOUNT_JSON''))]\<rparr>,
      Panic ''invalid memory address or nil pointer dereference'')"
  by (simp add: run_eval example_env_def example_cfg_def pubSubMaxOutstandingMessages_def)

end
